theory Spec2Isabelle
  imports Main "HOL-Library.Mapping" "HOL-Library.AList_Mapping"
begin

section \<open>The line coverage command of s2e-env (commands/code_coverage/lcov.py)\<close>

text \<open>
  The command reads the translation block records of the last analysis run, counts for
  every instruction address how many records span it, asks the debug information for
  the source lines of these addresses and writes the result as an lcov trace file.

  Python integers are \<open>int\<close>, byte strings are \<open>string\<close>, the address dictionary is
  a \<open>mapping\<close>. The dictionary of files and the dictionaries of lines are only ever
  iterated, so they are the lists of their items, in the order in which the
  dictionary hands them out. What the command does to the outside (log records, the
  report file, the look at the disk) is the list of its events, in the order of
  execution. The functions of other modules (\<open>get_tb_files\<close>, \<open>parse_tb_file\<close>,
  \<open>line_info.get_file_line_coverage\<close>, \<open>project_path\<close>, \<open>genhtml\<close>) and the two
  questions asked to \<open>os.path\<close> are parameters.

  Two calls of the command can raise on their own: \<open>xrange\<close>, which takes nothing
  beyond a C long, and \<open>open\<close>. The functions that carry the names of the source
  describe the runs in which neither does; the functions with the suffix \<open>_exc\<close>
  describe every run, with \<open>OverflowError\<close> and \<open>IOError\<close> as results, and are shown
  to agree with the former wherever \<open>xrange\<close> accepts its bounds and the report file
  opens. Writing to the opened file is taken to succeed.
\<close>

subsection \<open>Data\<close>

text \<open>One entry of a translation block file: start address, end address and a third
  field that the command never reads.\<close>

type_synonym tb_record = "int \<times> int \<times> int"

type_synonym addr_table = "(int, int) mapping"

text \<open>The items of the dictionary from line number to execution count, and of the
  dictionary from source file to its lines.\<close>

type_synonym line_items = "(int \<times> int) list"

type_synonym file_line_items = "(string \<times> line_items) list"

datatype error = CommandError string | OverflowError | IOError

datatype level = Info | Warning

datatype event =
    Log level string
  | Open string
  | Write string
  | Isfile string

text \<open>The project description of the command and the functions it imports.\<close>

record project =
  target_path :: string
  target :: string
  project_path :: "string list \<Rightarrow> string"
  get_tb_files :: "string \<Rightarrow> string list"
  parse_tb_file :: "string \<Rightarrow> string \<Rightarrow> tb_record list option"
  get_file_line_coverage :: "string \<Rightarrow> addr_table \<Rightarrow> file_line_items"
  genhtml :: "string \<Rightarrow> string \<Rightarrow> string option"

text \<open>The disk as \<open>os.path\<close> sees it: what a path resolves to, and what lies there.\<close>

datatype node = Regular | Directory

record filesystem =
  realpath :: "string \<Rightarrow> string"
  node_at :: "string \<Rightarrow> node option"

definition isfile :: "filesystem \<Rightarrow> string \<Rightarrow> bool" where
  "isfile fs p = (node_at fs p = Some Regular)"

subsection \<open>Formatting\<close>

definition backslash :: char where
  "backslash = CHR 0x5C"

definition quote :: char where
  "quote = CHR 0x27"

definition nl :: string where
  "nl = [CHR 0x0A]"

text \<open>The conversion \<open>%d\<close>.\<close>

fun str_nat :: "nat \<Rightarrow> string" where
  "str_nat n =
     (if n < 10 then [''0123456789'' ! n]
      else str_nat (n div 10) @ [''0123456789'' ! (n mod 10)])"

declare str_nat.simps [simp del]

definition str_int :: "int \<Rightarrow> string" where
  "str_int i = (if i < 0 then CHR ''-'' # str_nat (nat (- i)) else str_nat (nat i))"

subsection \<open>Counting the addresses: \<open>_get_addr_coverage\<close>\<close>

text \<open>\<open>addr_counts[addr] = addr_counts.get(addr, 0) + 1\<close>\<close>

definition count_addr :: "int \<Rightarrow> addr_table \<Rightarrow> addr_table" where
  "count_addr addr addr_counts =
     Mapping.update addr (Mapping.lookup_default 0 addr_counts addr + 1) addr_counts"

text \<open>The loop over \<open>xrange(start_addr, end_addr)\<close> for one record.\<close>

fun count_range :: "tb_record \<Rightarrow> addr_table \<Rightarrow> addr_table" where
  "count_range (start_addr, end_addr, _) addr_counts =
     fold count_addr [start_addr..end_addr - 1] addr_counts"

text \<open>The body of the loop over the files: a file that parses to nothing is passed
  over.\<close>

definition count_file :: "project \<Rightarrow> string \<Rightarrow> string \<Rightarrow> addr_table \<Rightarrow> addr_table" where
  "count_file p target_name tb_coverage_file addr_counts =
     (case parse_tb_file p tb_coverage_file target_name of
        None \<Rightarrow> addr_counts
      | Some tb_coverage_data \<Rightarrow>
          if tb_coverage_data = [] then addr_counts
          else fold count_range tb_coverage_data addr_counts)"

definition get_addr_coverage :: "project \<Rightarrow> string \<Rightarrow> event list \<times> addr_table" where
  "get_addr_coverage p target_name =
     (let tb_coverage_files = get_tb_files p (project_path p [''s2e-last''])
      in ([Log Info ''Generating translation block coverage information''],
          fold (count_file p target_name) tb_coverage_files Mapping.empty))"

subsection \<open>Writing the report: \<open>_save_coverage_info\<close>\<close>

text \<open>One turn of the loop over the lines of a file: the \<open>DA\<close> line and the two
  counters.\<close>

fun write_line :: "int \<times> int \<Rightarrow> event list \<times> int \<times> int \<Rightarrow> event list \<times> int \<times> int" where
  "write_line (line, count) (out, num_non_zero_lines, num_instrumented_lines) =
     (out @ [Write (''DA:'' @ str_int line @ '','' @ str_int count @ nl)],
      (if count \<noteq> 0 then num_non_zero_lines + 1 else num_non_zero_lines),
      num_instrumented_lines + 1)"

text \<open>The part of the loop body after the path has been settled.\<close>

definition write_record :: "string \<Rightarrow> line_items \<Rightarrow> event list" where
  "write_record abs_src_path items =
     (case fold write_line items ([Write (''SF:'' @ abs_src_path @ nl)], 0, 0) of
        (out, num_non_zero_lines, num_instrumented_lines) \<Rightarrow>
          out @ [Write (''LH:'' @ str_int num_non_zero_lines @ nl),
                 Write (''LF:'' @ str_int num_instrumented_lines @ nl),
                 Write (''end_of_record'' @ nl)])"

definition missing_warning :: "string \<Rightarrow> string" where
  "missing_warning abs_src_path =
     ''Cannot find source file '' @ [quote] @ abs_src_path @ [quote] @ ''. Skipping...''"

text \<open>The body of the loop over the files.\<close>

fun save_file :: "filesystem \<Rightarrow> string \<times> line_items \<Rightarrow> event list" where
  "save_file fs (src_file, items) =
     (if backslash \<in> set src_file then write_record src_file items
      else
        let abs_src_path = realpath fs src_file
        in if \<not> isfile fs abs_src_path
           then [Isfile abs_src_path, Log Warning (missing_warning abs_src_path)]
           else Isfile abs_src_path # write_record abs_src_path items)"

definition save_coverage_info :: "project \<Rightarrow> filesystem \<Rightarrow> file_line_items \<Rightarrow> event list \<times> string" where
  "save_coverage_info p fs file_line_info =
     (let lcov_path = project_path p [''s2e-last'', ''coverage.info'']
      in ([Log Info (''Writing line coverage to '' @ lcov_path), Open lcov_path,
           Write (''TN:'' @ nl)]
          @ concat (map (save_file fs) file_line_info),
          lcov_path))"

subsection \<open>The HTML report and the command: \<open>_gen_html\<close>, \<open>handle\<close>\<close>

text \<open>\<open>genhtml\<close> answers \<open>None\<close> when the child process succeeds and the text of its
  \<open>ErrorReturnCode\<close> otherwise.\<close>

definition gen_html :: "project \<Rightarrow> string \<Rightarrow> error + string" where
  "gen_html p lcov_info_path =
     (let lcov_html_dir = project_path p [''s2e-last'', ''lcov'']
      in case genhtml p lcov_info_path lcov_html_dir of
           Some e \<Rightarrow> Inl (CommandError e)
         | None \<Rightarrow> Inr lcov_html_dir)"

definition handle :: "project \<Rightarrow> filesystem \<Rightarrow> bool \<Rightarrow> event list \<times> (error + string)" where
  "handle p fs html =
     (case get_addr_coverage p (target p) of
        (ev1, addr_counts) \<Rightarrow>
          if Mapping.is_empty addr_counts
          then (ev1, Inl (CommandError ''No translation block information found''))
          else
            let file_line_info = get_file_line_coverage p (target_path p) addr_counts
            in case save_coverage_info p fs file_line_info of
                 (ev2, lcov_info_path) \<Rightarrow>
                   if html
                   then (case gen_html p lcov_info_path of
                           Inl e \<Rightarrow> (ev1 @ ev2, Inl e)
                         | Inr lcov_html_dir \<Rightarrow>
                             (ev1 @ ev2,
                              Inr (''Line coverage saved to '' @ lcov_info_path
                                   @ ''. An HTML report is available in '' @ lcov_html_dir)))
                   else (ev1 @ ev2, Inr (''Line coverage saved to '' @ lcov_info_path)))"

subsection \<open>The exceptions of \<open>xrange\<close> and \<open>open\<close>\<close>

text \<open>\<open>xrange(start, stop)\<close> of CPython 2 converts both bounds to a C long and holds its
  length in one: it raises \<open>OverflowError\<close> when a bound lies outside
  \<open>-maxint - 1 .. maxint\<close> or when there are more than \<open>maxint\<close> items, also when the
  range is empty. \<open>maxint\<close> is \<open>sys.maxint\<close> of the interpreter.\<close>

definition xrange :: "int \<Rightarrow> int \<Rightarrow> int \<Rightarrow> error + int list" where
  "xrange maxint start stop =
     (if start < - maxint - 1 \<or> maxint < start \<or> stop < - maxint - 1 \<or> maxint < stop
      then Inl OverflowError
      else if maxint < stop - start then Inl OverflowError
      else Inr [start..stop - 1])"

text \<open>The loop for one record, the loop over the records of a file and the loop over
  the files: the first exception ends them all.\<close>

fun count_range_exc :: "int \<Rightarrow> tb_record \<Rightarrow> addr_table \<Rightarrow> error + addr_table" where
  "count_range_exc maxint (start_addr, end_addr, _) addr_counts =
     (case xrange maxint start_addr end_addr of
        Inl e \<Rightarrow> Inl e
      | Inr addrs \<Rightarrow> Inr (fold count_addr addrs addr_counts))"

fun count_records_exc :: "int \<Rightarrow> tb_record list \<Rightarrow> addr_table \<Rightarrow> error + addr_table" where
  "count_records_exc maxint [] addr_counts = Inr addr_counts"
| "count_records_exc maxint (r # rs) addr_counts =
     (case count_range_exc maxint r addr_counts of
        Inl e \<Rightarrow> Inl e
      | Inr addr_counts' \<Rightarrow> count_records_exc maxint rs addr_counts')"

definition count_file_exc ::
    "int \<Rightarrow> project \<Rightarrow> string \<Rightarrow> string \<Rightarrow> addr_table \<Rightarrow> error + addr_table" where
  "count_file_exc maxint p target_name tb_coverage_file addr_counts =
     (case parse_tb_file p tb_coverage_file target_name of
        None \<Rightarrow> Inr addr_counts
      | Some tb_coverage_data \<Rightarrow>
          if tb_coverage_data = [] then Inr addr_counts
          else count_records_exc maxint tb_coverage_data addr_counts)"

fun count_files_exc ::
    "int \<Rightarrow> project \<Rightarrow> string \<Rightarrow> string list \<Rightarrow> addr_table \<Rightarrow> error + addr_table" where
  "count_files_exc maxint p target_name [] addr_counts = Inr addr_counts"
| "count_files_exc maxint p target_name (f # fs) addr_counts =
     (case count_file_exc maxint p target_name f addr_counts of
        Inl e \<Rightarrow> Inl e
      | Inr addr_counts' \<Rightarrow> count_files_exc maxint p target_name fs addr_counts')"

definition get_addr_coverage_exc ::
    "int \<Rightarrow> project \<Rightarrow> string \<Rightarrow> event list \<times> (error + addr_table)" where
  "get_addr_coverage_exc maxint p target_name =
     (let tb_coverage_files = get_tb_files p (project_path p [''s2e-last''])
      in ([Log Info ''Generating translation block coverage information''],
          count_files_exc maxint p target_name tb_coverage_files Mapping.empty))"

text \<open>\<open>open(lcov_path, 'w')\<close> raises \<open>IOError\<close> when the file cannot be opened for
  writing; \<open>can_open\<close> says of a path whether it can. The log record comes before the
  call, and nothing is opened or written when it raises.\<close>

definition save_coverage_info_exc ::
    "(string \<Rightarrow> bool) \<Rightarrow> project \<Rightarrow> filesystem \<Rightarrow> file_line_items
       \<Rightarrow> event list \<times> (error + string)" where
  "save_coverage_info_exc can_open p fs file_line_info =
     (let lcov_path = project_path p [''s2e-last'', ''coverage.info'']
      in if \<not> can_open lcov_path
         then ([Log Info (''Writing line coverage to '' @ lcov_path)], Inl IOError)
         else ([Log Info (''Writing line coverage to '' @ lcov_path), Open lcov_path,
                Write (''TN:'' @ nl)]
               @ concat (map (save_file fs) file_line_info),
               Inr lcov_path))"

text \<open>The command: an exception of \<open>_get_addr_coverage\<close> or of
  \<open>_save_coverage_info\<close> ends it.\<close>

definition handle_exc ::
    "int \<Rightarrow> (string \<Rightarrow> bool) \<Rightarrow> project \<Rightarrow> filesystem \<Rightarrow> bool
       \<Rightarrow> event list \<times> (error + string)" where
  "handle_exc maxint can_open p fs html =
     (case get_addr_coverage_exc maxint p (target p) of
        (ev1, Inl e) \<Rightarrow> (ev1, Inl e)
      | (ev1, Inr addr_counts) \<Rightarrow>
          if Mapping.is_empty addr_counts
          then (ev1, Inl (CommandError ''No translation block information found''))
          else
            let file_line_info = get_file_line_coverage p (target_path p) addr_counts
            in case save_coverage_info_exc can_open p fs file_line_info of
                 (ev2, Inl e) \<Rightarrow> (ev1 @ ev2, Inl e)
               | (ev2, Inr lcov_info_path) \<Rightarrow>
                   if html
                   then (case gen_html p lcov_info_path of
                           Inl e \<Rightarrow> (ev1 @ ev2, Inl e)
                         | Inr lcov_html_dir \<Rightarrow>
                             (ev1 @ ev2,
                              Inr (''Line coverage saved to '' @ lcov_info_path
                                   @ ''. An HTML report is available in '' @ lcov_html_dir)))
                   else (ev1 @ ev2, Inr (''Line coverage saved to '' @ lcov_info_path)))"

subsection \<open>Reading the events\<close>

text \<open>The strings written to the report file, the text of the report, the paths that
  were looked for on the disk, the warnings, and the files opened for writing.\<close>

fun writes :: "event list \<Rightarrow> string list" where
  "writes [] = []"
| "writes (Write s # es) = s # writes es"
| "writes (_ # es) = writes es"

definition report_text :: "event list \<Rightarrow> string" where
  "report_text es = concat (writes es)"

fun checked :: "event list \<Rightarrow> string list" where
  "checked [] = []"
| "checked (Isfile q # es) = q # checked es"
| "checked (_ # es) = checked es"

fun warnings :: "event list \<Rightarrow> string list" where
  "warnings [] = []"
| "warnings (Log Warning s # es) = s # warnings es"
| "warnings (_ # es) = warnings es"

fun opened :: "event list \<Rightarrow> string list" where
  "opened [] = []"
| "opened (Open q # es) = q # opened es"
| "opened (_ # es) = opened es"

subsection \<open>What the tables are compared with\<close>

text \<open>The records that reach the counting loop, file after file.\<close>

definition tb_records :: "project \<Rightarrow> string \<Rightarrow> tb_record list" where
  "tb_records p target_name =
     concat (map (\<lambda>f. case parse_tb_file p f target_name of None \<Rightarrow> [] | Some d \<Rightarrow> d)
                 (get_tb_files p (project_path p [''s2e-last''])))"

text \<open>A record spans the addresses from its start up to, and without, its end.\<close>

fun spans :: "int \<Rightarrow> tb_record \<Rightarrow> bool" where
  "spans a (start_addr, end_addr, _) = (start_addr \<le> a \<and> a < end_addr)"

definition span_count :: "int \<Rightarrow> tb_record list \<Rightarrow> int" where
  "span_count a rs = int (length (filter (spans a) rs))"

text \<open>The sum of the third fields of the records that span an address: the count
  that a table of summed hit counts would hold.\<close>

definition hit_count_sum :: "int \<Rightarrow> tb_record list \<Rightarrow> int" where
  "hit_count_sum a rs = sum_list (map (\<lambda>(_, _, hit_count). hit_count) (filter (spans a) rs))"

text \<open>Reading a decimal back: the number that a string of digits, with or without a
  sign in front, stands for.\<close>

definition digit_val :: "char \<Rightarrow> nat" where
  "digit_val c = of_char c - 48"

definition val_nat :: "string \<Rightarrow> nat" where
  "val_nat s = foldl (\<lambda>acc c. 10 * acc + digit_val c) 0 s"

definition val_int :: "string \<Rightarrow> int" where
  "val_int s = (case s of [] \<Rightarrow> 0
                | c # cs \<Rightarrow> if c = CHR ''-'' then - int (val_nat cs) else int (val_nat s))"

text \<open>The records that \<open>xrange\<close> accepts: both bounds and the number of addresses
  between them fit in a C long.\<close>

fun fits :: "int \<Rightarrow> tb_record \<Rightarrow> bool" where
  "fits maxint (start_addr, end_addr, _) =
     (- maxint - 1 \<le> start_addr \<and> start_addr \<le> maxint
      \<and> - maxint - 1 \<le> end_addr \<and> end_addr \<le> maxint
      \<and> end_addr - start_addr \<le> maxint)"

text \<open>Start and end of a record, without the third field.\<close>

fun bounds :: "tb_record \<Rightarrow> int \<times> int" where
  "bounds (start_addr, end_addr, _) = (start_addr, end_addr)"

text \<open>The lines of a file record as the format describes them: the path, one line
  for each item, the number of items with a count other than zero, the number of
  items, the end marker.\<close>

definition da_line :: "int \<times> int \<Rightarrow> string" where
  "da_line item = ''DA:'' @ str_int (fst item) @ '','' @ str_int (snd item) @ nl"

definition record_lines :: "string \<Rightarrow> line_items \<Rightarrow> string list" where
  "record_lines path items =
     [''SF:'' @ path @ nl] @ map da_line items
     @ [''LH:'' @ str_int (int (length (filter (\<lambda>item. snd item \<noteq> 0) items))) @ nl,
        ''LF:'' @ str_int (int (length items)) @ nl,
        ''end_of_record'' @ nl]"

subsection \<open>A small project\<close>

definition demo_path :: "string list \<Rightarrow> string" where
  "demo_path parts = ''/proj'' @ concat (map (\<lambda>s. CHR ''/'' # s) parts)"

definition demo_project :: "tb_record list option \<Rightarrow> file_line_items \<Rightarrow> project" where
  "demo_project tb_data file_lines =
     \<lparr> target_path = ''/bin/prog'', target = ''prog'', project_path = demo_path,
       get_tb_files = (\<lambda>_. [''tbcoverage-0.json'']),
       parse_tb_file = (\<lambda>_ _. tb_data),
       get_file_line_coverage = (\<lambda>_ _. file_lines),
       genhtml = (\<lambda>_ _. None) \<rparr>"

text \<open>A disk on which \<open>/src/a.c\<close> is the only regular file and every path resolves
  to itself.\<close>

definition demo_fs :: filesystem where
  "demo_fs = \<lparr> realpath = (\<lambda>q. q),
               node_at = (\<lambda>q. if q = ''/src/a.c'' then Some Regular else None) \<rparr>"

text \<open>The same disk seen from the directory \<open>/src\<close>: relative paths resolve there.\<close>

definition demo_fs_rel :: filesystem where
  "demo_fs_rel = \<lparr> realpath = (\<lambda>q. case q of [] \<Rightarrow> ''/src''
                                    | c # _ \<Rightarrow> if c = CHR ''/'' then q else ''/src/'' @ q),
                   node_at = (\<lambda>q. if q = ''/src/a.c'' then Some Regular else None) \<rparr>"

definition windows_path :: string where
  "windows_path = ''C:'' @ [backslash] @ ''a.c''"

definition demo_records :: "tb_record list" where
  "demo_records = [(0x1000, 0x1010, 2), (0x1008, 0x1020, 3)]"

text \<open>The same disk with a directory \<open>/tmp\<close> more.\<close>

definition demo_fs_tmp :: filesystem where
  "demo_fs_tmp = \<lparr> realpath = (\<lambda>q. q),
                   node_at = (\<lambda>q. if q = ''/src/a.c'' then Some Regular
                                   else if q = ''/tmp'' then Some Directory else None) \<rparr>"

text \<open>\<open>sys.maxint\<close> where a C long has 64 bits, a host on which the report file of the
  small project can be opened, and one on which no file can.\<close>

definition maxint64 :: int where
  "maxint64 = 0x7FFFFFFFFFFFFFFF"

definition demo_can_open :: "string \<Rightarrow> bool" where
  "demo_can_open q = (q = ''/proj/s2e-last/coverage.info'')"

definition read_only :: "string \<Rightarrow> bool" where
  "read_only q = False"

definition demo_lines :: file_line_items where
  "demo_lines = [(''/src/a.c'', [(1, 2), (2, 0)]), (''/src/gone.c'', [(3, 1)]),
                 (windows_path, [(7, 0)])]"

section \<open>Decimal numbers\<close>

text \<open>The conversion \<open>%d\<close> can be read back, so two numbers are printed alike only if
  they are equal.\<close>

lemma digit_val_digit: "n < 10 \<Longrightarrow> digit_val (''0123456789'' ! n) = n"
proof -
  assume "n < 10"
  then consider "n = 0" | "n = 1" | "n = 2" | "n = 3" | "n = 4" | "n = 5" | "n = 6"
    | "n = 7" | "n = 8" | "n = 9"
    by atomize_elim arith
  then show ?thesis
    by cases (simp_all add: digit_val_def)
qed

lemma digit_not_minus: "n < 10 \<Longrightarrow> ''0123456789'' ! n \<noteq> CHR ''-''"
proof -
  assume "n < 10"
  then consider "n = 0" | "n = 1" | "n = 2" | "n = 3" | "n = 4" | "n = 5" | "n = 6"
    | "n = 7" | "n = 8" | "n = 9"
    by atomize_elim arith
  then show ?thesis
    by cases simp_all
qed

lemma val_nat_snoc: "val_nat (s @ [c]) = 10 * val_nat s + digit_val c"
  by (simp add: val_nat_def)

lemma val_str_nat: "val_nat (str_nat n) = n"
proof (induction n rule: str_nat.induct)
  case (1 n)
  show ?case
  proof (cases "n < 10")
    case True
    then show ?thesis
      using digit_val_digit [of n] by (simp add: str_nat.simps [of n] val_nat_def)
  next
    case False
    then have "val_nat (str_nat n) = 10 * (n div 10) + n mod 10"
      using "1.IH" digit_val_digit [of "n mod 10"]
      by (simp add: str_nat.simps [of n] val_nat_snoc)
    then show ?thesis by simp
  qed
qed

lemma str_nat_not_empty: "str_nat n \<noteq> []"
  by (simp add: str_nat.simps [of n])

lemma hd_str_nat: "hd (str_nat n) \<noteq> CHR ''-''"
proof (induction n rule: str_nat.induct)
  case (1 n)
  show ?case
  proof (cases "n < 10")
    case True
    then show ?thesis
      using digit_not_minus [of n] by (simp add: str_nat.simps [of n])
  next
    case False
    then show ?thesis
      using "1.IH" str_nat_not_empty [of "n div 10"] by (simp add: str_nat.simps [of n])
  qed
qed

lemma val_str_int: "val_int (str_int i) = i"
proof (cases "i < 0")
  case True
  then show ?thesis
    by (simp add: val_int_def str_int_def val_str_nat)
next
  case False
  obtain c cs where s: "str_nat (nat i) = c # cs"
    using str_nat_not_empty [of "nat i"] by (cases "str_nat (nat i)") auto
  have "c \<noteq> CHR ''-''"
    using hd_str_nat [of "nat i"] by (simp add: s)
  moreover have "val_nat (c # cs) = nat i"
    using val_str_nat [of "nat i"] by (simp add: s)
  ultimately show ?thesis
    using False by (simp add: val_int_def str_int_def s)
qed

lemma str_int_inj: "str_int i = str_int j \<Longrightarrow> i = j"
  by (metis val_str_int)

section \<open>The address table\<close>

subsection \<open>One address, one record, one file\<close>

lemma lookup_count_addr:
  "Mapping.lookup (count_addr a m) b =
     (if b = a then Some (Mapping.lookup_default 0 m a + 1) else Mapping.lookup m b)"
  by (simp add: count_addr_def Mapping.lookup_update')

lemma default_count_addr:
  "Mapping.lookup_default 0 (count_addr a m) b =
     Mapping.lookup_default 0 m b + (if b = a then 1 else 0)"
  by (simp add: Mapping.lookup_default_def lookup_count_addr)

lemma lookup_fold_count_addr:
  "distinct xs \<Longrightarrow> Mapping.lookup (fold count_addr xs m) b =
     (if b \<in> set xs then Some (Mapping.lookup_default 0 m b + 1) else Mapping.lookup m b)"
proof (induction xs arbitrary: m)
  case Nil
  then show ?case by simp
next
  case (Cons x xs)
  then show ?case
    by (auto simp: lookup_count_addr default_count_addr)
qed

lemma lookup_count_range:
  "Mapping.lookup (count_range (s, e, h) m) b =
     (if s \<le> b \<and> b < e then Some (Mapping.lookup_default 0 m b + 1) else Mapping.lookup m b)"
  by (auto simp: lookup_fold_count_addr)

lemma default_count_range:
  "Mapping.lookup_default 0 (count_range (s, e, h) m) b =
     Mapping.lookup_default 0 m b + (if s \<le> b \<and> b < e then 1 else 0)"
  by (simp add: Mapping.lookup_default_def lookup_count_range del: count_range.simps)

lemma lookup_fold_count_range:
  "Mapping.lookup (fold count_range rs m) a =
     (if span_count a rs = 0 then Mapping.lookup m a
      else Some (Mapping.lookup_default 0 m a + span_count a rs))"
proof (induction rs arbitrary: m)
  case Nil
  then show ?case by (simp add: span_count_def)
next
  case (Cons r rs)
  obtain s e h where r: "r = (s, e, h)" by (cases r)
  show ?case
    unfolding r
    by (simp add: Cons.IH lookup_count_range default_count_range span_count_def
        del: count_range.simps)
qed

lemma count_file_fold:
  "count_file p t f m =
     fold count_range (case parse_tb_file p f t of None \<Rightarrow> [] | Some d \<Rightarrow> d) m"
  by (simp add: count_file_def split: option.split)

lemma fold_count_file:
  "fold (count_file p t) fs m =
     fold count_range
       (concat (map (\<lambda>f. case parse_tb_file p f t of None \<Rightarrow> [] | Some d \<Rightarrow> d) fs)) m"
  by (induction fs arbitrary: m) (simp_all add: count_file_fold)

lemma table_fold:
  "snd (get_addr_coverage p t) = fold count_range (tb_records p t) Mapping.empty"
  by (simp add: get_addr_coverage_def tb_records_def fold_count_file)

lemma lookup_table:
  "Mapping.lookup (snd (get_addr_coverage p t)) a =
     (if span_count a (tb_records p t) = 0 then None
      else Some (span_count a (tb_records p t)))"
  by (simp add: table_fold lookup_fold_count_range Mapping.lookup_default_def)

lemma tb_records_demo: "tb_records (demo_project (Some rs) fl) t = rs"
  by (simp add: tb_records_def demo_project_def)

lemma span_count_bounds:
  "map bounds rs = map bounds rs' \<Longrightarrow> span_count a rs = span_count a rs'"
proof -
  assume eq: "map bounds rs = map bounds rs'"
  have len: "length (filter (spans a) xs) =
        length (filter (\<lambda>(s, e). s \<le> a \<and> a < e) (map bounds xs))" for xs
    by (induction xs) auto
  have "length (filter (spans a) rs) = length (filter (spans a) rs')"
    unfolding len eq ..
  then show "span_count a rs = span_count a rs'"
    by (simp add: span_count_def)
qed

text \<open>Files that agree one by one on the bounds of their records give sequences of
  records that agree on them.\<close>

lemma bounds_tb_records:
  assumes "get_tb_files p2 = get_tb_files p1" and "project_path p2 = project_path p1"
    and "\<forall>f \<in> set (get_tb_files p1 (project_path p1 [''s2e-last''])).
           map_option (map bounds) (parse_tb_file p1 f t) =
           map_option (map bounds) (parse_tb_file p2 f t)"
  shows "map bounds (tb_records p1 t) = map bounds (tb_records p2 t)"
proof -
  have one: "map bounds (case parse_tb_file p1 f t of None \<Rightarrow> [] | Some d \<Rightarrow> d) =
             map bounds (case parse_tb_file p2 f t of None \<Rightarrow> [] | Some d \<Rightarrow> d)"
    if "f \<in> set (get_tb_files p1 (project_path p1 [''s2e-last'']))" for f
    using assms(3) that by (auto split: option.splits)
  have "map (\<lambda>f. map bounds (case parse_tb_file p1 f t of None \<Rightarrow> [] | Some d \<Rightarrow> d))
          (get_tb_files p1 (project_path p1 [''s2e-last''])) =
        map (\<lambda>f. map bounds (case parse_tb_file p2 f t of None \<Rightarrow> [] | Some d \<Rightarrow> d))
          (get_tb_files p1 (project_path p1 [''s2e-last'']))"
    by (rule map_cong [OF refl]) (rule one)
  then have "concat (map (\<lambda>f. map bounds (case parse_tb_file p1 f t of None \<Rightarrow> [] | Some d \<Rightarrow> d))
          (get_tb_files p1 (project_path p1 [''s2e-last'']))) =
        concat (map (\<lambda>f. map bounds (case parse_tb_file p2 f t of None \<Rightarrow> [] | Some d \<Rightarrow> d))
          (get_tb_files p1 (project_path p1 [''s2e-last''])))"
    by (rule arg_cong)
  then show ?thesis
    unfolding tb_records_def assms(1,2) map_concat map_map comp_def .
qed

lemma table_eq:
  assumes "\<And>a. span_count a (tb_records p1 t) = span_count a (tb_records p2 t)"
  shows "snd (get_addr_coverage p1 t) = snd (get_addr_coverage p2 t)"
  by (rule mapping_eqI) (simp add: lookup_table assms)

lemma fst_get_addr_coverage:
  "fst (get_addr_coverage p t) = [Log Info ''Generating translation block coverage information'']"
  by (simp add: get_addr_coverage_def)

lemma default_table:
  "Mapping.lookup_default 0 (snd (get_addr_coverage p t)) a = span_count a (tb_records p t)"
  by (simp add: Mapping.lookup_default_def lookup_table)

lemma is_empty_lookup: "Mapping.is_empty m \<longleftrightarrow> (\<forall>k. Mapping.lookup m k = None)"
  by (metis Mapping.is_empty_def keys_dom_lookup dom_eq_empty_conv)

lemma no_records_empty: "tb_records p t = [] \<Longrightarrow> Mapping.is_empty (snd (get_addr_coverage p t))"
  by (simp add: table_fold)

subsection \<open>Runs that raise\<close>

text \<open>Where \<open>xrange\<close> accepts every record and the report file opens, the run is the
  one that the functions named after the source describe; where \<open>xrange\<close> refuses a
  record, counting ends with \<open>OverflowError\<close>; where the file does not open, writing
  ends with \<open>IOError\<close>.\<close>

lemma xrange_fits: "fits maxint (s, e, h) \<Longrightarrow> xrange maxint s e = Inr [s..e - 1]"
  by (simp add: xrange_def)

lemma xrange_not_fits: "\<not> fits maxint (s, e, h) \<Longrightarrow> xrange maxint s e = Inl OverflowError"
  by (auto simp: xrange_def)

lemma count_range_exc_fits:
  "fits maxint r \<Longrightarrow> count_range_exc maxint r m = Inr (count_range r m)"
  by (cases r) (simp add: xrange_def)

lemma count_range_exc_not_fits:
  "\<not> fits maxint r \<Longrightarrow> count_range_exc maxint r m = Inl OverflowError"
  by (cases r) (auto simp: xrange_def)

lemma count_records_exc_fits:
  "\<forall>r \<in> set rs. fits maxint r \<Longrightarrow>
   count_records_exc maxint rs m = Inr (fold count_range rs m)"
  by (induction rs arbitrary: m) (simp_all add: count_range_exc_fits del: count_range.simps)

lemma count_records_exc_not_fits:
  "\<not> (\<forall>r \<in> set rs. fits maxint r) \<Longrightarrow> count_records_exc maxint rs m = Inl OverflowError"
proof (induction rs arbitrary: m)
  case Nil
  then show ?case by simp
next
  case (Cons r rs)
  show ?case
  proof (cases "fits maxint r")
    case True
    with Cons.prems have "\<not> (\<forall>r \<in> set rs. fits maxint r)" by simp
    then show ?thesis
      by (simp add: count_range_exc_fits True Cons.IH del: count_range.simps)
  next
    case False
    then show ?thesis by (simp add: count_range_exc_not_fits)
  qed
qed

lemma count_records_exc_append:
  "count_records_exc maxint (xs @ ys) m =
     (case count_records_exc maxint xs m of
        Inl e \<Rightarrow> Inl e
      | Inr m' \<Rightarrow> count_records_exc maxint ys m')"
  by (induction xs arbitrary: m) (simp_all split: sum.split)

lemma count_file_exc_records:
  "count_file_exc maxint p t f m =
     count_records_exc maxint (case parse_tb_file p f t of None \<Rightarrow> [] | Some d \<Rightarrow> d) m"
  by (simp add: count_file_exc_def split: option.split)

lemma count_files_exc_records:
  "count_files_exc maxint p t fs m =
     count_records_exc maxint
       (concat (map (\<lambda>f. case parse_tb_file p f t of None \<Rightarrow> [] | Some d \<Rightarrow> d) fs)) m"
  by (induction fs arbitrary: m)
     (simp_all add: count_file_exc_records count_records_exc_append split: sum.split)

lemma get_addr_coverage_exc_records:
  "get_addr_coverage_exc maxint p t =
     ([Log Info ''Generating translation block coverage information''],
      count_records_exc maxint (tb_records p t) Mapping.empty)"
  by (simp add: get_addr_coverage_exc_def tb_records_def count_files_exc_records)

lemma get_addr_coverage_exc_fits:
  "\<forall>r \<in> set (tb_records p t). fits maxint r \<Longrightarrow>
   get_addr_coverage_exc maxint p t =
     (fst (get_addr_coverage p t), Inr (snd (get_addr_coverage p t)))"
  by (simp add: get_addr_coverage_exc_records count_records_exc_fits table_fold
      fst_get_addr_coverage)

lemma get_addr_coverage_exc_not_fits:
  "\<not> (\<forall>r \<in> set (tb_records p t). fits maxint r) \<Longrightarrow>
   snd (get_addr_coverage_exc maxint p t) = Inl OverflowError"
  by (simp add: get_addr_coverage_exc_records count_records_exc_not_fits)

lemma save_coverage_info_exc_opens:
  "can_open (project_path p [''s2e-last'', ''coverage.info'']) \<Longrightarrow>
   save_coverage_info_exc can_open p fs t =
     (fst (save_coverage_info p fs t), Inr (snd (save_coverage_info p fs t)))"
  by (simp add: save_coverage_info_exc_def save_coverage_info_def Let_def)

lemma save_coverage_info_exc_fails:
  "\<not> can_open (project_path p [''s2e-last'', ''coverage.info'']) \<Longrightarrow>
   save_coverage_info_exc can_open p fs t =
     ([Log Info (''Writing line coverage to '' @ project_path p [''s2e-last'', ''coverage.info''])],
      Inl IOError)"
  by (simp add: save_coverage_info_exc_def Let_def)

lemma handle_exc_handle:
  assumes "\<forall>r \<in> set (tb_records p (target p)). fits maxint r"
    and "can_open (project_path p [''s2e-last'', ''coverage.info''])"
  shows "handle_exc maxint can_open p fs html = handle p fs html"
proof -
  have s: "save_coverage_info_exc can_open p fs t =
      (fst (save_coverage_info p fs t), Inr (snd (save_coverage_info p fs t)))" for t
    using assms(2) by (rule save_coverage_info_exc_opens)
  show ?thesis
    by (simp add: handle_exc_def handle_def get_addr_coverage_exc_fits [OF assms(1)] s
        Let_def split: prod.split sum.split)
qed

lemma handle_exc_overflow:
  assumes "\<not> (\<forall>r \<in> set (tb_records p (target p)). fits maxint r)"
  shows "handle_exc maxint can_open p fs html =
           ([Log Info ''Generating translation block coverage information''], Inl OverflowError)"
  using assms
  by (simp add: handle_exc_def get_addr_coverage_exc_records count_records_exc_not_fits)

lemma handle_exc_empty:
  assumes "snd (get_addr_coverage_exc maxint p (target p)) = Inr addr_counts"
    and "Mapping.is_empty addr_counts"
  shows "handle_exc maxint can_open p fs html =
           ([Log Info ''Generating translation block coverage information''],
            Inl (CommandError ''No translation block information found''))"
  using assms
  by (simp add: handle_exc_def get_addr_coverage_exc_records)

lemma count_range_degenerate: "count_range (a, a, h) m = m"
  by simp

subsection \<open>The count of an address\<close>

text \<open>
  C1, as the command has it. For every sequence of records and every address \<open>a\<close>,
  the table of \<open>_get_addr_coverage\<close> holds for \<open>a\<close> the number of records that span
  \<open>a\<close>, each record counted as often as it occurs, and holds no entry for an address
  that no record spans. The third field of a record takes no part: the records
  \<open>(0x1000, 0x1010, 2)\<close> and \<open>(0x1008, 0x1020, 3)\<close> give the count 2 at \<open>0x1008\<close>.
\<close>

theorem aggregation_counts_spanning_records:
  "Mapping.lookup (snd (get_addr_coverage p t)) a =
     (if length (filter (spans a) (tb_records p t)) = 0 then None
      else Some (int (length (filter (spans a) (tb_records p t)))))"
  using lookup_table [of p t a] by (simp add: span_count_def)

text \<open>
  On the two records above the table holds 2 at \<open>0x1008\<close>.
\<close>

theorem aggregation_counts_spanning_records_witness:
  "Mapping.lookup (snd (get_addr_coverage (demo_project (Some demo_records) []) ''prog'')) 0x1008
     = Some 2"
  using aggregation_counts_spanning_records [of "demo_project (Some demo_records) []" "''prog''" "0x1008"]
  by (simp add: tb_records_demo demo_records_def)

text \<open>
  A table of summed third fields would hold 5 there: the table of the command is not
  that table.
\<close>

theorem table_of_summed_hit_counts_counterexample:
  "Mapping.lookup (snd (get_addr_coverage (demo_project (Some demo_records) []) ''prog'')) 0x1008
     = Some 2
   \<and> hit_count_sum 0x1008 (tb_records (demo_project (Some demo_records) []) ''prog'') = 5
   \<and> Mapping.lookup (snd (get_addr_coverage (demo_project (Some demo_records) []) ''prog'')) 0x1008
     \<noteq> Some (hit_count_sum 0x1008 (tb_records (demo_project (Some demo_records) []) ''prog''))"
  by (simp add: lookup_table tb_records_demo span_count_def hit_count_sum_def demo_records_def)

text \<open>
  C2. Two runs whose sequences of records hold the same start and end addresses in the
  same order, whatever the third fields are, build the same table, and the count of
  an address is the number of the records that span it: every occurrence of a record
  adds one to every address between its bounds.
\<close>

theorem aggregation_ignores_third_field:
  assumes "map bounds (tb_records p1 t) = map bounds (tb_records p2 t)"
  shows "get_addr_coverage p1 t = get_addr_coverage p2 t
       \<and> Mapping.lookup_default 0 (snd (get_addr_coverage p1 t)) a =
           int (length (filter (spans a) (tb_records p1 t)))"
proof -
  have "span_count a (tb_records p1 t) = span_count a (tb_records p2 t)" for a
    using assms by (rule span_count_bounds)
  then have "snd (get_addr_coverage p1 t) = snd (get_addr_coverage p2 t)"
    by (rule table_eq)
  then have "get_addr_coverage p1 t = get_addr_coverage p2 t"
    by (simp add: prod_eq_iff fst_get_addr_coverage)
  moreover have "Mapping.lookup_default 0 (snd (get_addr_coverage p1 t)) a =
      int (length (filter (spans a) (tb_records p1 t)))"
    by (simp add: default_table span_count_def)
  ultimately show ?thesis by (rule conjI)
qed

text \<open>
  Two files with the same bounds and other third fields.
\<close>

theorem aggregation_ignores_third_field_witness:
  "get_addr_coverage (demo_project (Some [(0x1000, 0x1010, 2), (0x1008, 0x1020, 3)]) []) ''prog'' =
   get_addr_coverage (demo_project (Some [(0x1000, 0x1010, 7), (0x1008, 0x1020, 0)]) []) ''prog''
   \<and> Mapping.lookup_default 0
        (snd (get_addr_coverage (demo_project (Some [(0x1000, 0x1010, 2), (0x1008, 0x1020, 3)]) [])
               ''prog'')) 0x1008 = 2"
proof -
  let ?p1 = "demo_project (Some [(0x1000, 0x1010, 2), (0x1008, 0x1020, 3)]) []"
  let ?p2 = "demo_project (Some [(0x1000, 0x1010, 7), (0x1008, 0x1020, 0)]) []"
  have h: "map bounds (tb_records ?p1 ''prog'') = map bounds (tb_records ?p2 ''prog'')"
    by (simp add: tb_records_demo)
  note r = aggregation_ignores_third_field [OF h, of "0x1008"]
  have same: "get_addr_coverage ?p1 ''prog'' = get_addr_coverage ?p2 ''prog''"
    using r by (rule conjunct1)
  have two: "Mapping.lookup_default 0 (snd (get_addr_coverage ?p1 ''prog'')) 0x1008 = 2"
    using r [THEN conjunct2] by (simp add: tb_records_demo)
  from same two show ?thesis by (rule conjI)
qed



text \<open>
  C5, as CPython 2 runs it. A record whose start and end addresses are equal and lie
  within a C long, from \<open>-maxint - 1\<close> up to \<open>maxint\<close>, leaves the table as it is and
  raises nothing: its loop returns the table it was given, and counting a list of
  records ends as counting the list without that record does.
\<close>

theorem degenerate_range_in_bounds_no_change:
  assumes "start_addr = end_addr" and "- maxint - 1 \<le> start_addr" and "start_addr \<le> maxint"
  shows "count_range_exc maxint (start_addr, end_addr, hit_count) m = Inr m
       \<and> count_records_exc maxint (pre @ (start_addr, end_addr, hit_count) # post) m =
           count_records_exc maxint (pre @ post) m"
proof -
  from assms have "fits maxint (start_addr, end_addr, hit_count)"
    by simp
  then have "count_range_exc maxint (start_addr, end_addr, hit_count) m' =
      Inr (count_range (start_addr, end_addr, hit_count) m')" for m'
    by (rule count_range_exc_fits)
  then have one: "count_range_exc maxint (start_addr, end_addr, hit_count) m' = Inr m'" for m'
    unfolding assms(1) count_range_degenerate .
  have "count_records_exc maxint (pre @ (start_addr, end_addr, hit_count) # post) m =
      count_records_exc maxint (pre @ post) m"
    by (simp add: count_records_exc_append one del: count_range_exc.simps split: sum.split)
  with one show ?thesis by simp
qed

text \<open>
  The record \<open>(0x3000, 0x3000, 4)\<close> where a C long has 64 bits.
\<close>

theorem degenerate_range_in_bounds_no_change_witness:
  "count_range_exc maxint64 (0x3000, 0x3000, 4) Mapping.empty = Inr Mapping.empty
   \<and> count_records_exc maxint64 [(0x1000, 0x1002, 1), (0x3000, 0x3000, 4)] Mapping.empty =
       count_records_exc maxint64 [(0x1000, 0x1002, 1)] Mapping.empty"
proof -
  have h1: "(0x3000::int) = 0x3000" by simp
  have h2: "- maxint64 - 1 \<le> 0x3000" by (simp add: maxint64_def)
  have h3: "0x3000 \<le> maxint64" by (simp add: maxint64_def)
  from degenerate_range_in_bounds_no_change
    [OF h1 h2 h3, of 4 Mapping.empty "[(0x1000, 0x1002, 1)]" "[]"]
  show ?thesis by (simp del: count_range_exc.simps count_records_exc.simps)
qed

text \<open>
  The address \<open>2^63\<close> does not fit in a C long of 64 bits: for the record that starts
  and ends there \<open>xrange\<close> raises, and the command ends with \<open>OverflowError\<close>.
\<close>

theorem degenerate_range_beyond_long_counterexample:
  "count_range_exc maxint64 (0x8000000000000000, 0x8000000000000000, 1) Mapping.empty =
     Inl OverflowError
   \<and> snd (handle_exc maxint64 demo_can_open
            (demo_project (Some [(0x8000000000000000, 0x8000000000000000, 1)]) []) demo_fs False) =
     Inl OverflowError"
proof -
  have "\<not> fits maxint64 (0x8000000000000000, 0x8000000000000000, 1)"
    by (simp add: maxint64_def)
  then have "\<not> (\<forall>r \<in> set (tb_records
      (demo_project (Some [(0x8000000000000000, 0x8000000000000000, 1)]) [])
      (target (demo_project (Some [(0x8000000000000000, 0x8000000000000000, 1)]) []))).
        fits maxint64 r)"
    by (simp add: tb_records_demo)
  then show ?thesis
    by (simp add: handle_exc_overflow xrange_def maxint64_def)
qed

section \<open>The command without coverage data\<close>

lemma handle_empty:
  "Mapping.is_empty (snd (get_addr_coverage p (target p))) \<Longrightarrow>
   handle p fs html =
     ([Log Info ''Generating translation block coverage information''],
      Inl (CommandError ''No translation block information found''))"
  by (simp add: handle_def get_addr_coverage_def Let_def)

text \<open>
  C3. When no record reaches the counting loop (no translation block file, or files
  that all parse to nothing) the address table is empty, and whenever the address
  table is empty \<open>handle\<close> ends with the error
  \<open>No translation block information found\<close>, having opened no file for writing and
  written nothing.
\<close>

theorem handle_no_coverage_data:
  "(tb_records p (target p) = [] \<longrightarrow> Mapping.is_empty (snd (get_addr_coverage p (target p))))
   \<and> (Mapping.is_empty (snd (get_addr_coverage p (target p))) \<longrightarrow>
        snd (handle p fs html) = Inl (CommandError ''No translation block information found'')
        \<and> opened (fst (handle p fs html)) = []
        \<and> writes (fst (handle p fs html)) = [])"
  by (auto simp: handle_empty no_records_empty)

text \<open>
  A project whose only translation block file does not parse.
\<close>

theorem handle_no_coverage_data_witness:
  "tb_records (demo_project None []) (target (demo_project None [])) = []
   \<and> Mapping.is_empty (snd (get_addr_coverage (demo_project None []) (target (demo_project None []))))
   \<and> snd (handle (demo_project None []) demo_fs True) =
       Inl (CommandError ''No translation block information found'')
   \<and> opened (fst (handle (demo_project None []) demo_fs True)) = []
   \<and> writes (fst (handle (demo_project None []) demo_fs True)) = []"
proof -
  have h: "tb_records (demo_project None []) (target (demo_project None [])) = []"
    by (simp add: tb_records_def demo_project_def)
  show ?thesis
    using h handle_no_coverage_data [of "demo_project None []" demo_fs True]
    by blast
qed

section \<open>The report\<close>

subsection \<open>What is written\<close>

lemma writes_append: "writes (xs @ ys) = writes xs @ writes ys"
  by (induction xs rule: writes.induct) simp_all

lemma checked_append: "checked (xs @ ys) = checked xs @ checked ys"
  by (induction xs rule: checked.induct) simp_all

lemma warnings_append: "warnings (xs @ ys) = warnings xs @ warnings ys"
  by (induction xs rule: warnings.induct) simp_all

lemma writes_map_Write: "writes (map Write ss) = ss"
  by (induction ss) simp_all

lemma checked_map_Write: "checked (map Write ss) = []"
  by (induction ss) simp_all

lemma warnings_map_Write: "warnings (map Write ss) = []"
  by (induction ss) simp_all

lemma fold_write_line:
  "fold write_line items (out, nz, ni) =
     (out @ map (\<lambda>item. Write (da_line item)) items,
      nz + int (length (filter (\<lambda>item. snd item \<noteq> 0) items)),
      ni + int (length items))"
proof (induction items arbitrary: out nz ni)
  case Nil
  then show ?case by simp
next
  case (Cons item items)
  obtain line count where item: "item = (line, count)" by (cases item)
  show ?case
    unfolding item by (simp add: Cons.IH da_line_def)
qed

lemma write_record_lines: "write_record path items = map Write (record_lines path items)"
  by (simp add: write_record_def fold_write_line record_lines_def)

lemma writes_write_record: "writes (write_record path items) = record_lines path items"
  by (simp add: write_record_lines writes_map_Write)

lemma writes_save_file:
  "writes (save_file fs (src, items)) =
     (if backslash \<in> set src then record_lines src items
      else if isfile fs (realpath fs src) then record_lines (realpath fs src) items
      else [])"
  by (simp add: writes_write_record Let_def)

lemma writes_concat: "writes (concat ess) = concat (map writes ess)"
  by (induction ess) (simp_all add: writes_append)

lemma warnings_concat: "warnings (concat ess) = concat (map warnings ess)"
  by (induction ess) (simp_all add: warnings_append)

lemma writes_save_coverage_info:
  "writes (fst (save_coverage_info p fs t)) =
     (''TN:'' @ nl) # concat (map (\<lambda>entry. writes (save_file fs entry)) t)"
  by (simp add: save_coverage_info_def Let_def writes_append writes_concat comp_def)

lemma warnings_save_coverage_info:
  "warnings (fst (save_coverage_info p fs t)) =
     concat (map (\<lambda>entry. warnings (save_file fs entry)) t)"
  by (simp add: save_coverage_info_def Let_def warnings_append warnings_concat comp_def)

lemma save_file_missing:
  "backslash \<notin> set src \<Longrightarrow> \<not> isfile fs (realpath fs src) \<Longrightarrow>
   save_file fs (src, items) =
     [Isfile (realpath fs src), Log Warning (missing_warning (realpath fs src))]"
  by (simp add: Let_def)

lemma nothing_is_no_file: "node_at fs q = None \<Longrightarrow> \<not> isfile fs q"
  by (simp add: isfile_def)

lemma checked_write_record: "checked (write_record path items) = []"
  by (simp add: write_record_lines checked_map_Write)

lemma save_file_agree:
  assumes "backslash \<notin> set src \<longrightarrow>
             realpath fs1 src = realpath fs2 src
             \<and> isfile fs1 (realpath fs1 src) = isfile fs2 (realpath fs2 src)"
  shows "save_file fs1 (src, items) = save_file fs2 (src, items)"
proof (cases "backslash \<in> set src")
  case True
  then show ?thesis by simp
next
  case False
  with assms have r: "realpath fs1 src = realpath fs2 src"
    and "isfile fs1 (realpath fs1 src) = isfile fs2 (realpath fs2 src)"
    by blast+
  then have i: "isfile fs1 (realpath fs2 src) = isfile fs2 (realpath fs2 src)"
    by (simp only:)
  show ?thesis by (simp add: Let_def r i False)
qed

subsection \<open>The record of a file\<close>

text \<open>The report file is the one file opened, and a command with coverage data does
  open it.\<close>

lemma opened_append: "opened (xs @ ys) = opened xs @ opened ys"
  by (induction xs rule: opened.induct) simp_all

lemma opened_map_Write: "opened (map Write ss) = []"
  by (induction ss) simp_all

lemma opened_save_file: "opened (save_file fs entry) = []"
  by (cases entry) (simp add: write_record_lines opened_map_Write Let_def)

lemma opened_save_files: "opened (concat (map (save_file fs) t)) = []"
  by (induction t) (simp_all add: opened_append opened_save_file del: save_file.simps)

lemma opened_save_coverage_info:
  "opened (fst (save_coverage_info p fs t)) = [project_path p [''s2e-last'', ''coverage.info'']]"
  by (simp add: save_coverage_info_def Let_def opened_append opened_save_files)

lemma handle_opens_report:
  assumes "\<not> Mapping.is_empty (snd (get_addr_coverage p (target p)))"
  shows "opened (fst (handle p fs html)) = [project_path p [''s2e-last'', ''coverage.info'']]"
proof -
  obtain ev1 addr_counts where g: "get_addr_coverage p (target p) = (ev1, addr_counts)"
    by (cases "get_addr_coverage p (target p)")
  have ev1: "opened ev1 = []"
    using fst_get_addr_coverage [of p "target p"] by (simp add: g)
  obtain ev2 lcov_info_path where
    s: "save_coverage_info p fs (get_file_line_coverage p (target_path p) addr_counts) =
          (ev2, lcov_info_path)"
    by (cases "save_coverage_info p fs (get_file_line_coverage p (target_path p) addr_counts)")
  have ev2: "opened ev2 = [project_path p [''s2e-last'', ''coverage.info'']]"
    using opened_save_coverage_info
      [of p fs "get_file_line_coverage p (target_path p) addr_counts"]
    by (simp add: s)
  from assms have "\<not> Mapping.is_empty addr_counts" by (simp add: g)
  then show ?thesis
    by (simp add: handle_def g s Let_def opened_append ev1 ev2 split: sum.split)
qed

text \<open>
  C6. The record written for a file with the line items \<open>items\<close> is the \<open>SF\<close> line,
  one \<open>DA\<close> line for each item, an \<open>LH\<close> line with the number of items whose count
  is not zero, an \<open>LF\<close> line with the number of items, and the end marker. Whatever
  the loop writes for an entry of the table is nothing at all or such a record.
\<close>

theorem record_line_counts:
  "writes (write_record path items) =
     [''SF:'' @ path @ nl] @ map da_line items
     @ [''LH:'' @ str_int (int (length (filter (\<lambda>item. snd item \<noteq> 0) items))) @ nl,
        ''LF:'' @ str_int (int (length items)) @ nl,
        ''end_of_record'' @ nl]
   \<and> (writes (save_file fs (src, items)) = []
      \<or> writes (save_file fs (src, items)) = writes (write_record src items)
      \<or> writes (save_file fs (src, items)) = writes (write_record (realpath fs src) items))"
  by (simp add: writes_write_record record_lines_def Let_def)

text \<open>
  Three lines, two of them executed.
\<close>

theorem record_line_counts_witness:
  "writes (write_record ''/src/a.c'' [(1, 2), (2, 0), (5, 9)]) =
     [''SF:/src/a.c'' @ nl, ''DA:1,2'' @ nl, ''DA:2,0'' @ nl, ''DA:5,9'' @ nl,
      ''LH:2'' @ nl, ''LF:3'' @ nl, ''end_of_record'' @ nl]"
  using record_line_counts [of "''/src/a.c''" "[(1, 2), (2, 0), (5, 9)]" demo_fs "''/src/a.c''"]
  by (simp add: da_line_def str_int_def str_nat.simps)

text \<open>
  C7. A path without back-slash that resolves to something that is no regular file on
  the disk, as every path does that resolves to nothing at all, gets a warning and no
  line in the report: the report of the table is the report of the table without this
  entry, and the record of every other entry that is not passed over stands in it in
  full.
\<close>

theorem missing_file_skipped:
  assumes "backslash \<notin> set src" and "\<not> isfile fs (realpath fs src)"
  shows "save_file fs (src, items) =
           [Isfile (realpath fs src), Log Warning (missing_warning (realpath fs src))]
       \<and> writes (fst (save_coverage_info p fs (pre @ (src, items) # post))) =
           writes (fst (save_coverage_info p fs (pre @ post)))
       \<and> report_text (fst (save_coverage_info p fs (pre @ (src, items) # post))) =
           report_text (fst (save_coverage_info p fs (pre @ post)))
       \<and> missing_warning (realpath fs src)
           \<in> set (warnings (fst (save_coverage_info p fs (pre @ (src, items) # post))))
       \<and> (\<forall>(src', items') \<in> set (pre @ post).
            (backslash \<in> set src' \<longrightarrow>
               (\<exists>before after. writes (fst (save_coverage_info p fs (pre @ (src, items) # post))) =
                   before @ record_lines src' items' @ after))
          \<and> (backslash \<notin> set src' \<and> isfile fs (realpath fs src') \<longrightarrow>
               (\<exists>before after. writes (fst (save_coverage_info p fs (pre @ (src, items) # post))) =
                   before @ record_lines (realpath fs src') items' @ after)))"
proof -
  let ?t = "pre @ (src, items) # post"
  have skip: "save_file fs (src, items) =
      [Isfile (realpath fs src), Log Warning (missing_warning (realpath fs src))]"
    using assms by (rule save_file_missing)
  have w: "writes (fst (save_coverage_info p fs ?t)) =
      writes (fst (save_coverage_info p fs (pre @ post)))"
    by (simp add: writes_save_coverage_info skip del: save_file.simps)
  have r: "report_text (fst (save_coverage_info p fs ?t)) =
      report_text (fst (save_coverage_info p fs (pre @ post)))"
    by (simp add: report_text_def w)
  have g: "missing_warning (realpath fs src) \<in> set (warnings (fst (save_coverage_info p fs ?t)))"
    by (simp add: warnings_save_coverage_info skip del: save_file.simps)
  have others: "\<exists>before after. writes (fst (save_coverage_info p fs ?t)) =
        before @ writes (save_file fs e) @ after" if "e \<in> set (pre @ post)" for e
  proof -
    from that obtain l r where "pre @ post = l @ e # r"
      by (meson split_list)
    then have "writes (fst (save_coverage_info p fs (pre @ post))) =
        ((''TN:'' @ nl) # concat (map (\<lambda>entry. writes (save_file fs entry)) l))
        @ writes (save_file fs e) @ concat (map (\<lambda>entry. writes (save_file fs entry)) r)"
      by (simp add: writes_save_coverage_info del: save_file.simps)
    then show ?thesis unfolding w by blast
  qed
  have all: "\<forall>(src', items') \<in> set (pre @ post).
            (backslash \<in> set src' \<longrightarrow>
               (\<exists>before after. writes (fst (save_coverage_info p fs ?t)) =
                   before @ record_lines src' items' @ after))
          \<and> (backslash \<notin> set src' \<and> isfile fs (realpath fs src') \<longrightarrow>
               (\<exists>before after. writes (fst (save_coverage_info p fs ?t)) =
                   before @ record_lines (realpath fs src') items' @ after))"
  proof (intro ballI, clarify, intro conjI impI)
    fix src' items'
    assume mem: "(src', items') \<in> set (pre @ post)"
    { assume "backslash \<in> set src'"
      then have "writes (save_file fs (src', items')) = record_lines src' items'"
        by (simp add: writes_save_file del: save_file.simps)
      with others [OF mem]
      show "\<exists>before after. writes (fst (save_coverage_info p fs ?t)) =
                   before @ record_lines src' items' @ after" by simp }
    { assume "backslash \<notin> set src' \<and> isfile fs (realpath fs src')"
      then have "writes (save_file fs (src', items')) = record_lines (realpath fs src') items'"
        by (simp add: writes_save_file del: save_file.simps)
      with others [OF mem]
      show "\<exists>before after. writes (fst (save_coverage_info p fs ?t)) =
                   before @ record_lines (realpath fs src') items' @ after" by simp }
  qed
  from skip w r g all show ?thesis by blast
qed

text \<open>
  A table with a file on the disk, a file that is not there and a path with a
  back-slash: two records and one warning.
\<close>

theorem missing_file_skipped_witness:
  "backslash \<notin> set ''/src/gone.c''
   \<and> \<not> isfile demo_fs (realpath demo_fs ''/src/gone.c'')
   \<and> report_text (fst (save_coverage_info (demo_project None []) demo_fs demo_lines)) =
       ''TN:'' @ nl
       @ ''SF:/src/a.c'' @ nl @ ''DA:1,2'' @ nl @ ''DA:2,0'' @ nl @ ''LH:1'' @ nl @ ''LF:2'' @ nl
       @ ''end_of_record'' @ nl
       @ ''SF:'' @ windows_path @ nl @ ''DA:7,0'' @ nl @ ''LH:0'' @ nl @ ''LF:1'' @ nl
       @ ''end_of_record'' @ nl
   \<and> warnings (fst (save_coverage_info (demo_project None []) demo_fs demo_lines)) =
       [missing_warning ''/src/gone.c'']"
proof -
  have h1: "backslash \<notin> set ''/src/gone.c''"
    by (simp add: backslash_def)
  have h2: "\<not> isfile demo_fs (realpath demo_fs ''/src/gone.c'')"
    by (simp add: isfile_def demo_fs_def)
  have body: "report_text (fst (save_coverage_info (demo_project None []) demo_fs
        ([(''/src/a.c'', [(1, 2), (2, 0)])] @ [(windows_path, [(7, 0)])]))) =
       ''TN:'' @ nl
       @ ''SF:/src/a.c'' @ nl @ ''DA:1,2'' @ nl @ ''DA:2,0'' @ nl @ ''LH:1'' @ nl @ ''LF:2'' @ nl
       @ ''end_of_record'' @ nl
       @ ''SF:'' @ windows_path @ nl @ ''DA:7,0'' @ nl @ ''LH:0'' @ nl @ ''LF:1'' @ nl
       @ ''end_of_record'' @ nl"
    by (simp add: report_text_def writes_save_coverage_info writes_save_file
        record_lines_def da_line_def str_int_def str_nat.simps
        backslash_def isfile_def demo_fs_def windows_path_def del: save_file.simps)
  have warn: "warnings (fst (save_coverage_info (demo_project None []) demo_fs demo_lines)) =
       [missing_warning ''/src/gone.c'']"
    by (simp add: warnings_save_coverage_info demo_lines_def Let_def write_record_lines
        warnings_map_Write backslash_def isfile_def demo_fs_def windows_path_def)
  note r = missing_file_skipped [OF h1 h2, of "[(3, 1)]" "demo_project None []"
      "[(''/src/a.c'', [(1, 2), (2, 0)])]" "[(windows_path, [(7, 0)])]"]
  have "report_text (fst (save_coverage_info (demo_project None []) demo_fs demo_lines)) =
      report_text (fst (save_coverage_info (demo_project None []) demo_fs
        ([(''/src/a.c'', [(1, 2), (2, 0)])] @ [(windows_path, [(7, 0)])])))"
    using r by (simp add: demo_lines_def)
  with body h1 h2 warn show ?thesis by (simp only: simp_thms)
qed

text \<open>
  C8. A path with a back-slash is written to the \<open>SF\<close> line as it is, no path is
  looked for on the disk for it, and what is written for it is the same on every
  disk. Any other path is written, if its record is written at all, as
  \<open>os.path.realpath\<close> resolves it.
\<close>

theorem path_resolution:
  "(backslash \<in> set src \<longrightarrow>
      take 1 (writes (save_file fs (src, items))) = [''SF:'' @ src @ nl]
      \<and> checked (save_file fs (src, items)) = []
      \<and> save_file fs (src, items) = save_file fs' (src, items))
   \<and> (backslash \<notin> set src \<longrightarrow>
      take 1 (writes (save_file fs (src, items))) =
        (if isfile fs (realpath fs src) then [''SF:'' @ realpath fs src @ nl] else []))"
  by (simp add: writes_write_record checked_write_record record_lines_def Let_def)

text \<open>
  A path with a back-slash, and the relative path \<open>a.c\<close> seen from \<open>/src\<close>.
\<close>

theorem path_resolution_witness:
  "backslash \<in> set windows_path
   \<and> take 1 (writes (save_file demo_fs_rel (windows_path, [(7, 0)]))) = [''SF:'' @ windows_path @ nl]
   \<and> checked (save_file demo_fs_rel (windows_path, [(7, 0)])) = []
   \<and> backslash \<notin> set ''a.c''
   \<and> take 1 (writes (save_file demo_fs_rel (''a.c'', [(1, 2)]))) = [''SF:/src/a.c'' @ nl]"
proof -
  have w: "backslash \<in> set windows_path"
    by (simp add: windows_path_def)
  have a: "backslash \<notin> set ''a.c''"
    by (simp add: backslash_def)
  have ra: "realpath demo_fs_rel ''a.c'' = ''/src/a.c''"
    by (simp add: demo_fs_rel_def)
  have fa: "isfile demo_fs_rel ''/src/a.c''"
    by (simp add: isfile_def demo_fs_rel_def)
  show ?thesis
    using w a path_resolution [of windows_path demo_fs_rel "[(7, 0)]" demo_fs_rel]
      path_resolution [of "''a.c''" demo_fs_rel "[(1, 2)]" demo_fs_rel]
    by (simp add: ra fa del: save_file.simps)
qed

text \<open>
  C9. The events of \<open>_save_coverage_info\<close>, and with them the text of the report, are
  a function of the table and of what the disk answers for the paths without
  back-slash of the table: on two disks that resolve these paths alike and hold a
  regular file at the same ones of them, and so on one disk asked twice, the same
  table gives the same report, byte for byte.
\<close>

theorem serialization_deterministic:
  assumes "\<forall>(src, items) \<in> set t. backslash \<notin> set src \<longrightarrow>
             realpath fs1 src = realpath fs2 src
             \<and> isfile fs1 (realpath fs1 src) = isfile fs2 (realpath fs2 src)"
  shows "save_coverage_info p fs1 t = save_coverage_info p fs2 t
       \<and> report_text (fst (save_coverage_info p fs1 t)) =
           report_text (fst (save_coverage_info p fs2 t))"
proof -
  have one: "save_file fs1 entry = save_file fs2 entry" if "entry \<in> set t" for entry
  proof -
    obtain src items where entry: "entry = (src, items)" by (cases entry)
    from assms that have "backslash \<notin> set src \<longrightarrow>
             realpath fs1 src = realpath fs2 src
             \<and> isfile fs1 (realpath fs1 src) = isfile fs2 (realpath fs2 src)"
      unfolding entry by blast
    then show ?thesis unfolding entry by (rule save_file_agree)
  qed
  have m: "map (save_file fs1) t = map (save_file fs2) t"
    by (rule map_cong [OF refl]) (rule one)
  show ?thesis
    unfolding save_coverage_info_def Let_def m by simp
qed

text \<open>
  Two disks that differ at a path the table does not name.
\<close>

theorem serialization_deterministic_witness:
  "save_coverage_info (demo_project None []) demo_fs demo_lines =
   save_coverage_info (demo_project None []) demo_fs_tmp demo_lines
   \<and> node_at demo_fs ''/tmp'' \<noteq> node_at demo_fs_tmp ''/tmp''"
proof -
  have h: "\<forall>(src, items) \<in> set demo_lines. backslash \<notin> set src \<longrightarrow>
             realpath demo_fs src = realpath demo_fs_tmp src
             \<and> isfile demo_fs (realpath demo_fs src) = isfile demo_fs_tmp (realpath demo_fs_tmp src)"
    by (simp add: demo_lines_def demo_fs_def demo_fs_tmp_def isfile_def)
  have d: "node_at demo_fs ''/tmp'' \<noteq> node_at demo_fs_tmp ''/tmp''"
    by (simp add: demo_fs_def demo_fs_tmp_def)
  from serialization_deterministic [OF h, of "demo_project None []"] d
  show ?thesis by blast
qed

lemma writes_missing_files:
  assumes "\<forall>(src, items) \<in> set t. backslash \<notin> set src \<and> \<not> isfile fs (realpath fs src)"
  shows "writes (fst (save_coverage_info p fs t)) = [''TN:'' @ nl]"
proof -
  have "writes (save_file fs entry) = []" if "entry \<in> set t" for entry
  proof -
    obtain src items where entry: "entry = (src, items)" by (cases entry)
    from assms that have "backslash \<notin> set src" and "\<not> isfile fs (realpath fs src)"
      unfolding entry by blast+
    then show ?thesis
      unfolding entry by (simp add: writes_save_file del: save_file.simps)
  qed
  then have "concat (map (\<lambda>entry. writes (save_file fs entry)) t) = []"
    by simp
  then show ?thesis
    by (simp add: writes_save_coverage_info)
qed

text \<open>
  C10, as the command has it. Where the report file can be opened, for a table without
  entries, or one in which no path has a back-slash and no path resolves to a regular
  file, \<open>_save_coverage_info\<close> raises nothing and returns the path of the report, and
  the report is the one line \<open>TN:\<close>.
\<close>

theorem opened_report_of_missing_files:
  assumes "can_open (project_path p [''s2e-last'', ''coverage.info''])"
    and "\<forall>(src, items) \<in> set t. backslash \<notin> set src \<and> \<not> isfile fs (realpath fs src)"
  shows "snd (save_coverage_info_exc can_open p fs t) =
           Inr (project_path p [''s2e-last'', ''coverage.info''])
       \<and> writes (fst (save_coverage_info_exc can_open p fs t)) = [''TN:'' @ nl]
       \<and> report_text (fst (save_coverage_info_exc can_open p fs t)) = ''TN:'' @ nl"
proof -
  have "save_coverage_info_exc can_open p fs t =
      (fst (save_coverage_info p fs t), Inr (snd (save_coverage_info p fs t)))"
    using assms(1) by (rule save_coverage_info_exc_opens)
  moreover have "snd (save_coverage_info p fs t) = project_path p [''s2e-last'', ''coverage.info'']"
    by (simp add: save_coverage_info_def Let_def)
  moreover have "writes (fst (save_coverage_info p fs t)) = [''TN:'' @ nl]"
    using assms(2) by (rule writes_missing_files)
  ultimately show ?thesis
    by (simp add: report_text_def)
qed

text \<open>
  A table with one missing file, and the table without entries.
\<close>

theorem opened_report_of_missing_files_witness:
  "snd (save_coverage_info_exc demo_can_open (demo_project None []) demo_fs
          [(''/src/gone.c'', [(3, 1)])]) = Inr ''/proj/s2e-last/coverage.info''
   \<and> report_text (fst (save_coverage_info_exc demo_can_open (demo_project None []) demo_fs
          [(''/src/gone.c'', [(3, 1)])])) = ''TN:'' @ nl
   \<and> snd (save_coverage_info_exc demo_can_open (demo_project None []) demo_fs []) =
       Inr ''/proj/s2e-last/coverage.info''
   \<and> report_text (fst (save_coverage_info_exc demo_can_open (demo_project None []) demo_fs []))
       = ''TN:'' @ nl"
proof -
  have p: "project_path (demo_project None []) [''s2e-last'', ''coverage.info''] =
      ''/proj/s2e-last/coverage.info''"
    by (simp add: demo_project_def demo_path_def)
  have o: "demo_can_open (project_path (demo_project None []) [''s2e-last'', ''coverage.info''])"
    by (simp add: p demo_can_open_def)
  have h: "\<forall>(src, items) \<in> set [(''/src/gone.c'', [(3::int, 1::int)])].
      backslash \<notin> set src \<and> \<not> isfile demo_fs (realpath demo_fs src)"
    by (simp add: backslash_def isfile_def demo_fs_def)
  have e: "\<forall>(src, items) \<in> set ([] :: file_line_items).
      backslash \<notin> set src \<and> \<not> isfile demo_fs (realpath demo_fs src)"
    by simp
  from opened_report_of_missing_files
      [where can_open = demo_can_open and p = "demo_project None []" and fs = demo_fs
        and t = "[(''/src/gone.c'', [(3, 1)])]", OF o h]
    opened_report_of_missing_files
      [where can_open = demo_can_open and p = "demo_project None []" and fs = demo_fs
        and t = "[]", OF o e] p
  show ?thesis by simp
qed

text \<open>
  A table whose only path has a back-slash holds no path without back-slash at all,
  and its report has a record; and where the report file cannot be opened, the table
  without entries ends in \<open>IOError\<close> with nothing written.
\<close>

theorem report_not_header_only_counterexample:
  "backslash \<in> set windows_path
   \<and> demo_can_open (project_path (demo_project None []) [''s2e-last'', ''coverage.info''])
   \<and> report_text (fst (save_coverage_info_exc demo_can_open (demo_project None []) demo_fs
        [(windows_path, [(7, 0)])])) =
       ''TN:'' @ nl
       @ ''SF:'' @ windows_path @ nl @ ''DA:7,0'' @ nl @ ''LH:0'' @ nl @ ''LF:1'' @ nl
       @ ''end_of_record'' @ nl
   \<and> report_text (fst (save_coverage_info_exc demo_can_open (demo_project None []) demo_fs
        [(windows_path, [(7, 0)])])) \<noteq> ''TN:'' @ nl
   \<and> snd (save_coverage_info_exc read_only (demo_project None []) demo_fs []) = Inl IOError
   \<and> writes (fst (save_coverage_info_exc read_only (demo_project None []) demo_fs [])) = []"
proof -
  have w: "backslash \<in> set windows_path"
    by (simp add: windows_path_def)
  have o: "demo_can_open (project_path (demo_project None []) [''s2e-last'', ''coverage.info''])"
    by (simp add: demo_project_def demo_path_def demo_can_open_def)
  have r: "\<not> read_only (project_path (demo_project None []) [''s2e-last'', ''coverage.info''])"
    by (simp add: read_only_def)
  note opens = save_coverage_info_exc_opens
      [where can_open = demo_can_open and p = "demo_project None []", OF o]
  note fails = save_coverage_info_exc_fails
      [where can_open = read_only and p = "demo_project None []", OF r]
  show ?thesis
    by (simp add: opens fails report_text_def writes_save_coverage_info writes_save_file w o
        record_lines_def da_line_def str_int_def str_nat.simps nl_def del: save_file.simps)
qed

end
